theory Spec2Isabelle
  imports Main "HOL-Library.Char_ord" "HOL-Library.List_Lexorder"
begin

section \<open>Python values and the built-in operations the validator applies to them\<close>

text \<open>
  The validator of \<^verbatim>\<open>scripts/validate-broker-toml.py\<close> works on whatever
  \<^verbatim>\<open>tomllib.load\<close> returns: strings, integers, booleans, floats, dates and times,
  arrays and tables. A character of the model is one code point below 256, and the
  string predicates below are Python's on that range. A float is carried by its
  \<^verbatim>\<open>repr\<close> text and a date or time by its \<^verbatim>\<open>str\<close> and \<^verbatim>\<open>repr\<close> texts:
  the validator only formats such values and tests their truth value. A table is an
  association list in document order, read with \<open>map_of\<close>.
\<close>

datatype py_error = TypeError | AttributeError | KeyError | OSError | UnicodeDecodeError

datatype toml =
    TStr string
  | TInt int
  | TBool bool
  | TFloat string
  | TDatetime string string
  | TList "toml list"
  | TTable "(string \<times> toml) list"

text \<open>An exception of the source is the value \<open>Inl e\<close>; \<open>then_do\<close> evaluates the
  next statement only when the previous one did not raise.\<close>

definition then_do :: "py_error + 'a \<Rightarrow> ('a \<Rightarrow> py_error + 'b) \<Rightarrow> py_error + 'b" where
  "then_do m f = (case m of Inl e \<Rightarrow> Inl e | Inr x \<Rightarrow> f x)"

subsection \<open>Strings\<close>

text \<open>\<^verbatim>\<open>s.startswith(p)\<close>\<close>

definition startswith :: "string \<Rightarrow> string \<Rightarrow> bool" where
  "startswith s p = (take (length p) s = p)"

text \<open>\<^verbatim>\<open>k in s\<close> for two strings: \<open>k\<close> occurs in \<open>s\<close> as a substring.\<close>

fun str_contains :: "string \<Rightarrow> string \<Rightarrow> bool" where
  "str_contains [] k = (k = [])"
| "str_contains (c # cs) k = (if startswith (c # cs) k then True else str_contains cs k)"

text \<open>\<^verbatim>\<open>s.replace(c, "")\<close> for a one-character string \<open>c\<close>.\<close>

definition replace_with_empty :: "char \<Rightarrow> string \<Rightarrow> string" where
  "replace_with_empty c s = filter (\<lambda>x. x \<noteq> c) s"

text \<open>\<^verbatim>\<open>str.isalnum\<close>: every character is alphabetic, decimal, digit or numeric, and
  there is at least one character.\<close>

definition isalnum_char :: "char \<Rightarrow> bool" where
  "isalnum_char c =
     (let n = (of_char c :: nat) in
        (48 \<le> n \<and> n \<le> 57) \<or> (65 \<le> n \<and> n \<le> 90) \<or> (97 \<le> n \<and> n \<le> 122) \<or>
        n = 170 \<or> n = 178 \<or> n = 179 \<or> n = 181 \<or> n = 185 \<or> n = 186 \<or>
        (188 \<le> n \<and> n \<le> 190) \<or> (192 \<le> n \<and> n \<le> 214) \<or>
        (216 \<le> n \<and> n \<le> 246) \<or> 248 \<le> n)"

definition isalnum :: "string \<Rightarrow> bool" where
  "isalnum s = (s \<noteq> [] \<and> list_all isalnum_char s)"

text \<open>\<^verbatim>\<open>str.lower\<close>: the characters it changes are \<open>A..Z\<close> and the upper-case
  letters \<open>0xC0..0xD6\<close>, \<open>0xD8..0xDE\<close>, each moved up by 32.\<close>

definition is_uppercase :: "char \<Rightarrow> bool" where
  "is_uppercase c =
     (let n = (of_char c :: nat) in
        (65 \<le> n \<and> n \<le> 90) \<or> (192 \<le> n \<and> n \<le> 214) \<or> (216 \<le> n \<and> n \<le> 222))"

definition lower_char :: "char \<Rightarrow> char" where
  "lower_char c = (if is_uppercase c then char_of ((of_char c :: nat) + 32) else c)"

definition lower :: "string \<Rightarrow> string" where
  "lower s = map lower_char s"

text \<open>\<^verbatim>\<open>sep.join(xs)\<close>\<close>

fun join :: "string \<Rightarrow> string list \<Rightarrow> string" where
  "join sep [] = []"
| "join sep [x] = x"
| "join sep (x # y # ys) = x @ sep @ join sep (y # ys)"

subsection \<open>Formatting a value inside an f-string\<close>

fun show_nat :: "nat \<Rightarrow> string" where
  "show_nat n =
     (if n < 10 then [char_of (48 + n)] else show_nat (n div 10) @ [char_of (48 + n mod 10)])"

definition show_int :: "int \<Rightarrow> string" where
  "show_int i = (if i < 0 then CHR ''-'' # show_nat (nat (- i)) else show_nat (nat i))"

definition hex_digit :: "nat \<Rightarrow> char" where
  "hex_digit d = (if d < 10 then char_of (48 + d) else char_of (87 + d))"

text \<open>\<^verbatim>\<open>repr\<close> of a string: single quotes unless the string has a single quote and no
  double quote; the quote and the backslash are escaped, as are the control
  characters and the code points that are not printable.\<close>

definition repr_char :: "char \<Rightarrow> char \<Rightarrow> string" where
  "repr_char q c =
     (let n = (of_char c :: nat) in
        if c = q \<or> n = 92 then [CHR 0x5C, c]
        else if n = 9 then [CHR 0x5C, CHR ''t'']
        else if n = 10 then [CHR 0x5C, CHR ''n'']
        else if n = 13 then [CHR 0x5C, CHR ''r'']
        else if n < 32 \<or> (127 \<le> n \<and> n \<le> 160) \<or> n = 173
          then [CHR 0x5C, CHR ''x'', hex_digit (n div 16), hex_digit (n mod 16)]
        else [c])"

definition repr_str :: "string \<Rightarrow> string" where
  "repr_str s =
     (let q = (if CHR 0x27 \<in> set s \<and> CHR 0x22 \<notin> set s then CHR 0x22 else CHR 0x27)
      in q # concat (map (repr_char q) s) @ [q])"

fun py_repr :: "toml \<Rightarrow> string"
  and repr_items :: "toml list \<Rightarrow> string list"
  and repr_pairs :: "(string \<times> toml) list \<Rightarrow> string list" where
  "py_repr (TStr s) = repr_str s"
| "py_repr (TInt i) = show_int i"
| "py_repr (TBool b) = (if b then ''True'' else ''False'')"
| "py_repr (TFloat r) = r"
| "py_repr (TDatetime s r) = r"
| "py_repr (TList xs) = ''['' @ join '', '' (repr_items xs) @ '']''"
| "py_repr (TTable kvs) = ''{'' @ join '', '' (repr_pairs kvs) @ ''}''"
| "repr_items [] = []"
| "repr_items (x # xs) = py_repr x # repr_items xs"
| "repr_pairs [] = []"
| "repr_pairs ((k, v) # kvs) = (repr_str k @ '': '' @ py_repr v) # repr_pairs kvs"

text \<open>\<^verbatim>\<open>f"{v}"\<close> is \<^verbatim>\<open>str(v)\<close>: the string itself, the \<^verbatim>\<open>str\<close> text of a date, and
  the \<^verbatim>\<open>repr\<close> of everything else.\<close>

definition py_str :: "toml \<Rightarrow> string" where
  "py_str v = (case v of TStr s \<Rightarrow> s | TDatetime s r \<Rightarrow> s | _ \<Rightarrow> py_repr v)"

subsection \<open>Truth value, membership, subscript, attributes, iteration\<close>

text \<open>\<^verbatim>\<open>bool(v)\<close>\<close>

definition truthy :: "toml \<Rightarrow> bool" where
  "truthy v =
     (case v of
        TStr s \<Rightarrow> s \<noteq> []
      | TInt i \<Rightarrow> i \<noteq> 0
      | TBool b \<Rightarrow> b
      | TFloat r \<Rightarrow> r \<noteq> ''0.0'' \<and> r \<noteq> ''-0.0''
      | TDatetime s r \<Rightarrow> True
      | TList xs \<Rightarrow> xs \<noteq> []
      | TTable kvs \<Rightarrow> kvs \<noteq> [])"

text \<open>\<^verbatim>\<open>k in v\<close> for a string \<open>k\<close>: a key of a table, a substring of a string, an
  element of an array; a \<^verbatim>\<open>TypeError\<close> on every other value.\<close>

definition py_contains :: "string \<Rightarrow> toml \<Rightarrow> py_error + bool" where
  "py_contains k v =
     (case v of
        TTable kvs \<Rightarrow> Inr (map_of kvs k \<noteq> None)
      | TStr s \<Rightarrow> Inr (str_contains s k)
      | TList xs \<Rightarrow> Inr (TStr k \<in> set xs)
      | _ \<Rightarrow> Inl TypeError)"

text \<open>\<^verbatim>\<open>v[k]\<close> for a string \<open>k\<close>\<close>

definition py_getitem :: "toml \<Rightarrow> string \<Rightarrow> py_error + toml" where
  "py_getitem v k =
     (case v of
        TTable kvs \<Rightarrow> (case map_of kvs k of None \<Rightarrow> Inl KeyError | Some x \<Rightarrow> Inr x)
      | _ \<Rightarrow> Inl TypeError)"

text \<open>\<^verbatim>\<open>v in S\<close> for a set \<open>S\<close> of strings: the value is hashed first, and arrays and
  tables are not hashable.\<close>

definition py_in_set :: "toml \<Rightarrow> string set \<Rightarrow> py_error + bool" where
  "py_in_set v S =
     (case v of
        TStr s \<Rightarrow> Inr (s \<in> S)
      | TList xs \<Rightarrow> Inl TypeError
      | TTable kvs \<Rightarrow> Inl TypeError
      | _ \<Rightarrow> Inr False)"

text \<open>\<^verbatim>\<open>v.startswith(p)\<close> and \<^verbatim>\<open>v.startswith((p1, p2))\<close>: only strings have the method.\<close>

definition attr_startswith :: "toml \<Rightarrow> string list \<Rightarrow> py_error + bool" where
  "attr_startswith v ps =
     (case v of TStr s \<Rightarrow> Inr (list_ex (startswith s) ps) | _ \<Rightarrow> Inl AttributeError)"

text \<open>\<^verbatim>\<open>v.replace(c, "")\<close>: dates and times have a \<^verbatim>\<open>replace\<close> method too, which
  rejects string arguments.\<close>

definition attr_replace :: "toml \<Rightarrow> char \<Rightarrow> py_error + string" where
  "attr_replace v c =
     (case v of
        TStr s \<Rightarrow> Inr (replace_with_empty c s)
      | TDatetime s r \<Rightarrow> Inl TypeError
      | _ \<Rightarrow> Inl AttributeError)"

text \<open>\<^verbatim>\<open>for x in v\<close>: the elements of an array, the characters of a string, the keys
  of a table.\<close>

definition py_iter :: "toml \<Rightarrow> py_error + toml list" where
  "py_iter v =
     (case v of
        TList xs \<Rightarrow> Inr xs
      | TStr s \<Rightarrow> Inr (map (\<lambda>c. TStr [c]) s)
      | TTable kvs \<Rightarrow> Inr (map (\<lambda>kv. TStr (fst kv)) kvs)
      | _ \<Rightarrow> Inl TypeError)"

text \<open>\<^verbatim>\<open>'{v}'\<close> inside an f-string.\<close>

definition quoted :: "string \<Rightarrow> string" where
  "quoted s = CHR 0x27 # s @ [CHR 0x27]"

section \<open>The rule tables\<close>

definition REQUIRED_FIELDS :: "(string \<times> string list) list" where
  "REQUIRED_FIELDS =
     [(''broker'', [''id'', ''name'', ''domain'', ''category'']),
      (''removal'', [''method''])]"

definition VALID_CATEGORIES :: "string set" where
  "VALID_CATEGORIES =
     {''people-search'', ''background-check'', ''data-aggregator'', ''marketing'',
      ''social-media'', ''government-records'', ''financial'', ''other''}"

definition VALID_REMOVAL_METHODS :: "string set" where
  "VALID_REMOVAL_METHODS =
     {''web-form'', ''email'', ''mail'', ''phone'', ''api'', ''account-required''}"

definition VALID_JURISDICTIONS :: "string set" where
  "VALID_JURISDICTIONS =
     {''ccpa'', ''gdpr'', ''vcdpa'', ''cpa'', ''ctdpa'', ''ucpa'', ''global''}"

text \<open>\<^verbatim>\<open>', '.join(sorted(S))\<close>: Python orders strings by code point, which is the
  lexicographic order of character lists.\<close>

definition one_of :: "string set \<Rightarrow> string" where
  "one_of S = join '', '' (sorted_list_of_set S)"

section \<open>The document loader\<close>

text \<open>
  What a path holds: nothing (\<open>None\<close>), something that \<^verbatim>\<open>open\<close> or the decoder
  rejects with an exception other than \<^verbatim>\<open>TOMLDecodeError\<close>, a text that is not TOML
  (with the decoder's message), or a document, given by the mapping it parses to.
\<close>

datatype file_state = Unreadable py_error | Malformed string | Document "(string \<times> toml) list"

type_synonym filesystem = "string \<Rightarrow> file_state option"

definition load_toml ::
  "filesystem \<Rightarrow> string \<Rightarrow> py_error + ((string \<times> toml) list option \<times> string list)" where
  "load_toml fs filepath =
     (case fs filepath of
        None \<Rightarrow> Inl OSError
      | Some (Unreadable e) \<Rightarrow> Inl e
      | Some (Malformed e) \<Rightarrow> Inr (None, [''Invalid TOML syntax: '' @ e])
      | Some (Document d) \<Rightarrow> Inr (Some d, []))"

section \<open>Required sections and fields\<close>

text \<open>The inner loop of \<^verbatim>\<open>_validate_required_fields\<close>, over the fields of one section
  that is present with content \<open>content\<close>.\<close>

fun missing_fields :: "string \<Rightarrow> toml \<Rightarrow> string list \<Rightarrow> py_error + string list" where
  "missing_fields section content [] = Inr []"
| "missing_fields section content (field # fields) =
     then_do (py_contains field content) (\<lambda>present.
     then_do (missing_fields section content fields) (\<lambda>errors.
       Inr ((if present then [] else [''Missing required field: '' @ section @ ''.'' @ field])
            @ errors)))"

text \<open>The outer loop, over the items of the manifest.\<close>

fun required_fields_loop ::
  "(string \<times> toml) list \<Rightarrow> (string \<times> string list) list \<Rightarrow> py_error + string list" where
  "required_fields_loop data [] = Inr []"
| "required_fields_loop data ((section, fields) # items) =
     (case map_of data section of
        None \<Rightarrow>
          then_do (required_fields_loop data items) (\<lambda>errors.
            Inr ((''Missing required section: ['' @ section @ '']'') # errors))
      | Some content \<Rightarrow>
          then_do (missing_fields section content fields) (\<lambda>here.
          then_do (required_fields_loop data items) (\<lambda>errors.
            Inr (here @ errors))))"

definition validate_required_fields :: "(string \<times> toml) list \<Rightarrow> py_error + string list" where
  "validate_required_fields data = required_fields_loop data REQUIRED_FIELDS"

section \<open>The broker section\<close>

text \<open>The three blocks of \<^verbatim>\<open>_validate_broker_section\<close>, in source order; each returns
  the diagnostics it appends.\<close>

definition broker_category_errors :: "toml \<Rightarrow> py_error + string list" where
  "broker_category_errors broker =
     then_do (py_contains ''category'' broker) (\<lambda>present.
       if present then
         then_do (py_getitem broker ''category'') (\<lambda>category.
         then_do (py_in_set category VALID_CATEGORIES) (\<lambda>valid.
           Inr (if valid then []
                else [''Invalid category '' @ quoted (py_str category)
                      @ ''. Must be one of: '' @ one_of VALID_CATEGORIES])))
       else Inr [])"

text \<open>\<^verbatim>\<open>not domain or " " in domain or domain.startswith("http")\<close>, left to right,
  stopping at the first true operand.\<close>

definition domain_rejected :: "toml \<Rightarrow> py_error + bool" where
  "domain_rejected domain =
     (if truthy domain then
        then_do (py_contains '' '' domain) (\<lambda>has_space.
          if has_space then Inr True else attr_startswith domain [''http''])
      else Inr True)"

definition broker_domain_errors :: "toml \<Rightarrow> py_error + string list" where
  "broker_domain_errors broker =
     then_do (py_contains ''domain'' broker) (\<lambda>present.
       if present then
         then_do (py_getitem broker ''domain'') (\<lambda>domain.
         then_do (domain_rejected domain) (\<lambda>rejected.
           Inr (if rejected
                then [''Invalid domain '' @ quoted (py_str domain)
                      @ ''. Should be just the domain (e.g., 'spokeo.com')'']
                else [])))
       else Inr [])"

definition broker_id_errors :: "toml \<Rightarrow> py_error + string list" where
  "broker_id_errors broker =
     then_do (py_contains ''id'' broker) (\<lambda>present.
       if present then
         then_do (py_getitem broker ''id'') (\<lambda>broker_id.
         then_do (attr_replace broker_id CHR ''-'') (\<lambda>stripped.
           Inr ((if isalnum (replace_with_empty CHR ''_'' stripped) then []
                 else [''Invalid broker ID '' @ quoted (py_str broker_id)
                       @ ''. Use lowercase alphanumeric with hyphens.''])
                @ (if py_str broker_id = lower (py_str broker_id) then []
                   else [''Broker ID '' @ quoted (py_str broker_id)
                         @ '' must be lowercase.'']))))
       else Inr [])"

definition validate_broker_section :: "toml \<Rightarrow> py_error + string list" where
  "validate_broker_section broker =
     then_do (broker_category_errors broker) (\<lambda>category_errors.
     then_do (broker_domain_errors broker) (\<lambda>domain_errors.
     then_do (broker_id_errors broker) (\<lambda>id_errors.
       Inr (category_errors @ domain_errors @ id_errors))))"

section \<open>The removal section\<close>

definition method_shape_message :: string where
  "method_shape_message = ''removal.method must be a string or array of strings''"

text \<open>The loop \<^verbatim>\<open>for m in methods\<close>.\<close>

fun method_enum_errors :: "toml list \<Rightarrow> py_error + string list" where
  "method_enum_errors [] = Inr []"
| "method_enum_errors (m # ms) =
     then_do (py_in_set m VALID_REMOVAL_METHODS) (\<lambda>valid.
     then_do (method_enum_errors ms) (\<lambda>errors.
       Inr ((if valid then []
             else [''Invalid removal method '' @ quoted (py_str m)
                   @ ''. Must be one of: '' @ one_of VALID_REMOVAL_METHODS])
            @ errors)))"

text \<open>\<^verbatim>\<open>[method] if isinstance(method, str) else method if isinstance(method, list) else []\<close>\<close>

definition resolve_methods :: "toml \<Rightarrow> toml list" where
  "resolve_methods method = (case method of TStr s \<Rightarrow> [method] | TList xs \<Rightarrow> xs | _ \<Rightarrow> [])"

text \<open>The block under \<^verbatim>\<open># Validate method\<close>; the test
  \<^verbatim>\<open>not methods and "method" in removal\<close> looks the key up a second time.\<close>

definition removal_method_errors :: "toml \<Rightarrow> py_error + string list" where
  "removal_method_errors removal =
     then_do (py_contains ''method'' removal) (\<lambda>present.
       if present then
         then_do (py_getitem removal ''method'') (\<lambda>method.
         then_do (if resolve_methods method = [] then py_contains ''method'' removal
                  else Inr False) (\<lambda>no_methods.
         then_do (method_enum_errors (resolve_methods method)) (\<lambda>errors.
           Inr ((if no_methods then [method_shape_message] else []) @ errors))))
       else Inr [])"

definition removal_url_errors :: "toml \<Rightarrow> py_error + string list" where
  "removal_url_errors removal =
     then_do (py_contains ''url'' removal) (\<lambda>present.
       if present then
         then_do (py_getitem removal ''url'') (\<lambda>url.
         then_do (attr_startswith url [''http://'', ''https://'']) (\<lambda>full.
           Inr (if full then []
                else [''removal.url must be a full URL, got '' @ quoted (py_str url)])))
       else Inr [])"

definition validate_removal_section :: "toml \<Rightarrow> py_error + string list" where
  "validate_removal_section removal =
     then_do (removal_method_errors removal) (\<lambda>method_errors.
     then_do (removal_url_errors removal) (\<lambda>url_errors.
       Inr (method_errors @ url_errors)))"

section \<open>The jurisdictions\<close>

text \<open>The body of the loop of \<^verbatim>\<open>_validate_jurisdictions\<close> for one element.\<close>

definition jurisdiction_errors :: "toml \<Rightarrow> py_error + string list" where
  "jurisdiction_errors jurisdiction =
     (case jurisdiction of
        TTable kvs \<Rightarrow>
          (case map_of kvs ''law'' of
             None \<Rightarrow> Inr []
           | Some law \<Rightarrow>
               then_do (py_in_set law VALID_JURISDICTIONS) (\<lambda>valid.
                 Inr (if valid then []
                      else [''Invalid jurisdiction '' @ quoted (py_str law)
                            @ ''. Must be one of: '' @ one_of VALID_JURISDICTIONS])))
      | _ \<Rightarrow> Inr [])"

fun jurisdictions_loop :: "toml list \<Rightarrow> py_error + string list" where
  "jurisdictions_loop [] = Inr []"
| "jurisdictions_loop (jurisdiction # rest) =
     then_do (jurisdiction_errors jurisdiction) (\<lambda>here.
     then_do (jurisdictions_loop rest) (\<lambda>errors. Inr (here @ errors)))"

definition validate_jurisdictions :: "toml \<Rightarrow> py_error + string list" where
  "validate_jurisdictions jurisdictions = then_do (py_iter jurisdictions) jurisdictions_loop"

section \<open>The orchestrator\<close>

text \<open>\<^verbatim>\<open>if name in data: errors.extend(validator(data[name]))\<close>\<close>

definition section_errors ::
  "(string \<times> toml) list \<Rightarrow> string \<Rightarrow> (toml \<Rightarrow> py_error + string list)
     \<Rightarrow> py_error + string list" where
  "section_errors data name validator =
     (case map_of data name of None \<Rightarrow> Inr [] | Some content \<Rightarrow> validator content)"

text \<open>\<^verbatim>\<open>if not data: return errors\<close> is taken when the loader returned \<^verbatim>\<open>None\<close> and
  also when it returned the empty mapping.\<close>

definition validate_broker_toml :: "filesystem \<Rightarrow> string \<Rightarrow> py_error + string list" where
  "validate_broker_toml fs filepath =
     then_do (load_toml fs filepath) (\<lambda>(loaded, errors).
       case loaded of
         None \<Rightarrow> Inr errors
       | Some data \<Rightarrow>
           if data = [] then Inr errors
           else
             then_do (validate_required_fields data) (\<lambda>required.
             then_do (section_errors data ''broker'' validate_broker_section) (\<lambda>broker.
             then_do (section_errors data ''removal'' validate_removal_section) (\<lambda>removal.
             then_do (section_errors data ''jurisdictions'' validate_jurisdictions)
               (\<lambda>jurisdictions.
               Inr (errors @ required @ broker @ removal @ jurisdictions))))))"

section \<open>The batch runner\<close>

definition SKIP_FILES :: "string set" where
  "SKIP_FILES = {''schema.toml'', ''README.md''}"

fun split_on :: "char \<Rightarrow> string \<Rightarrow> string list" where
  "split_on sep [] = [[]]"
| "split_on sep (c # cs) =
     (if c = sep then [] # split_on sep cs
      else (case split_on sep cs of [] \<Rightarrow> [[c]] | part # parts \<Rightarrow> (c # part) # parts))"

text \<open>\<^verbatim>\<open>Path(filepath).name\<close> on a POSIX path: the last component, once the empty
  components and the \<^verbatim>\<open>.\<close> components are dropped; the empty string when none is left.\<close>

definition path_name :: "string \<Rightarrow> string" where
  "path_name filepath =
     (case rev (filter (\<lambda>part. part \<noteq> [] \<and> part \<noteq> ''.'') (split_on CHR ''/'' filepath)) of
        [] \<Rightarrow> []
      | part # parts \<Rightarrow> part)"

text \<open>
  The loop of \<^verbatim>\<open>main\<close> over \<^verbatim>\<open>sys.argv[1:]\<close>. The state is \<^verbatim>\<open>all_valid\<close> and the
  lines printed so far; an exception leaves the loop with what was printed before it.
\<close>

fun main_loop ::
  "filesystem \<Rightarrow> string list \<Rightarrow> bool \<Rightarrow> string list \<Rightarrow> string list \<times> (py_error + bool)" where
  "main_loop fs [] all_valid printed = (printed, Inr all_valid)"
| "main_loop fs (filepath # rest) all_valid printed =
     (if path_name filepath \<in> SKIP_FILES then
        main_loop fs rest all_valid (printed @ [''SKIP: '' @ filepath @ '' (documentation)''])
      else if fs filepath = None then
        main_loop fs rest False (printed @ [''ERROR: File not found: '' @ filepath])
      else
        (case validate_broker_toml fs filepath of
           Inl e \<Rightarrow> (printed, Inl e)
         | Inr errors \<Rightarrow>
             if errors \<noteq> [] then
               main_loop fs rest False
                 (printed @ (''ERROR: '' @ filepath) # map (\<lambda>error. ''  - '' @ error) errors)
             else main_loop fs rest all_valid (printed @ [''OK: '' @ filepath])))"

text \<open>\<^verbatim>\<open>main\<close>, given \<^verbatim>\<open>sys.argv\<close>: the lines printed, and the exception raised or the
  value returned.\<close>

definition main :: "filesystem \<Rightarrow> string list \<Rightarrow> string list \<times> (py_error + int)" where
  "main fs argv =
     (if length argv < 2 then
        ([''Usage: validate-broker-toml.py <file1.toml> [file2.toml ...]''], Inr 1)
      else
        (case main_loop fs (tl argv) True [] of
           (printed, Inl e) \<Rightarrow> (printed, Inl e)
         | (printed, Inr all_valid) \<Rightarrow> (printed, Inr (if all_valid then 0 else 1))))"

text \<open>\<^verbatim>\<open>sys.exit(main())\<close>: the status of the process; an uncaught exception ends it
  with status 1.\<close>

definition exit_code :: "string list \<times> (py_error + int) \<Rightarrow> int" where
  "exit_code run = (case snd run of Inl e \<Rightarrow> 1 | Inr status \<Rightarrow> status)"

section \<open>Vocabulary of the properties\<close>

text \<open>
  The diagnostics are plain strings; the kind of a diagnostic is read off the fixed
  text it begins with. The definitions of this section are used by the theorems only,
  never by the functions above.
\<close>

definition is_category_diagnostic :: "string \<Rightarrow> bool" where
  "is_category_diagnostic e = startswith e ''Invalid category ''"

definition is_domain_diagnostic :: "string \<Rightarrow> bool" where
  "is_domain_diagnostic e = startswith e ''Invalid domain ''"

definition is_id_diagnostic :: "string \<Rightarrow> bool" where
  "is_id_diagnostic e = (startswith e ''Invalid broker ID '' \<or> startswith e ''Broker ID '')"

definition is_method_diagnostic :: "string \<Rightarrow> bool" where
  "is_method_diagnostic e =
     (startswith e ''removal.method '' \<or> startswith e ''Invalid removal method '')"

definition is_url_diagnostic :: "string \<Rightarrow> bool" where
  "is_url_diagnostic e = startswith e ''removal.url ''"

text \<open>The texts the diagnostics are expected to have, with the allowed values written
  out in ascending order.\<close>

definition sorted_categories :: "string list" where
  "sorted_categories =
     [''background-check'', ''data-aggregator'', ''financial'', ''government-records'',
      ''marketing'', ''other'', ''people-search'', ''social-media'']"

definition invalid_category_message :: "string \<Rightarrow> string" where
  "invalid_category_message shown =
     ''Invalid category '' @ quoted shown @ ''. Must be one of: '' @
     join '', '' sorted_categories"


definition invalid_domain_message :: "string \<Rightarrow> string" where
  "invalid_domain_message shown =
     ''Invalid domain '' @ quoted shown @ ''. Should be just the domain (e.g., 'spokeo.com')''"

definition invalid_id_message :: "string \<Rightarrow> string" where
  "invalid_id_message shown =
     ''Invalid broker ID '' @ quoted shown @ ''. Use lowercase alphanumeric with hyphens.''"

definition uppercase_id_message :: "string \<Rightarrow> string" where
  "uppercase_id_message shown = ''Broker ID '' @ quoted shown @ '' must be lowercase.''"

definition invalid_url_message :: "string \<Rightarrow> string" where
  "invalid_url_message shown = ''removal.url must be a full URL, got '' @ quoted shown"

definition invalid_jurisdiction_message :: "string \<Rightarrow> string" where
  "invalid_jurisdiction_message shown =
     ''Invalid jurisdiction '' @ quoted shown @
     ''. Must be one of: ccpa, cpa, ctdpa, gdpr, global, ucpa, vcdpa''"

text \<open>A value Python can hash: everything the loader produces but arrays and tables.\<close>

definition hashable :: "toml \<Rightarrow> bool" where
  "hashable v = (case v of TList xs \<Rightarrow> False | TTable kvs \<Rightarrow> False | _ \<Rightarrow> True)"



text \<open>A field of a table that is absent, or present with a value satisfying \<open>P\<close>.\<close>

definition absent_or :: "(toml \<Rightarrow> bool) \<Rightarrow> (string \<times> toml) list \<Rightarrow> string \<Rightarrow> bool" where
  "absent_or P kvs k = (case map_of kvs k of None \<Rightarrow> True | Some v \<Rightarrow> P v)"

text \<open>A field of a table that is present with a value satisfying \<open>P\<close>.\<close>

definition present_and :: "(toml \<Rightarrow> bool) \<Rightarrow> (string \<times> toml) list \<Rightarrow> string \<Rightarrow> bool" where
  "present_and P kvs k = (case map_of kvs k of None \<Rightarrow> False | Some v \<Rightarrow> P v)"







text \<open>The records that satisfy every rule of the validator.\<close>

definition id_char :: "char \<Rightarrow> bool" where
  "id_char c = (c \<in> set ''abcdefghijklmnopqrstuvwxyz0123456789-_'')"

definition valid_id :: "toml \<Rightarrow> bool" where
  "valid_id v =
     (case v of
        TStr s \<Rightarrow> list_all id_char s \<and> list_ex (\<lambda>c. c \<noteq> CHR ''-'' \<and> c \<noteq> CHR ''_'') s
      | _ \<Rightarrow> False)"

definition valid_domain :: "toml \<Rightarrow> bool" where
  "valid_domain v =
     (case v of
        TStr s \<Rightarrow> s \<noteq> [] \<and> CHR '' '' \<notin> set s \<and> take 4 s \<noteq> ''http''
      | _ \<Rightarrow> False)"

definition valid_category :: "toml \<Rightarrow> bool" where
  "valid_category v = (case v of TStr s \<Rightarrow> s \<in> VALID_CATEGORIES | _ \<Rightarrow> False)"

definition valid_method_entry :: "toml \<Rightarrow> bool" where
  "valid_method_entry v = (case v of TStr s \<Rightarrow> s \<in> VALID_REMOVAL_METHODS | _ \<Rightarrow> False)"

definition valid_method :: "toml \<Rightarrow> bool" where
  "valid_method v =
     (case v of
        TStr s \<Rightarrow> s \<in> VALID_REMOVAL_METHODS
      | TList xs \<Rightarrow> xs \<noteq> [] \<and> list_all valid_method_entry xs
      | _ \<Rightarrow> False)"

definition valid_url :: "toml \<Rightarrow> bool" where
  "valid_url v =
     (case v of TStr s \<Rightarrow> take 7 s = ''http://'' \<or> take 8 s = ''https://'' | _ \<Rightarrow> False)"

definition valid_law :: "toml \<Rightarrow> bool" where
  "valid_law v = (case v of TStr s \<Rightarrow> s \<in> VALID_JURISDICTIONS | _ \<Rightarrow> False)"

definition valid_jurisdiction :: "toml \<Rightarrow> bool" where
  "valid_jurisdiction j = (case j of TTable kvs \<Rightarrow> absent_or valid_law kvs ''law'' | _ \<Rightarrow> True)"

definition valid_jurisdictions :: "toml \<Rightarrow> bool" where
  "valid_jurisdictions v =
     (case v of TList js \<Rightarrow> list_all valid_jurisdiction js | _ \<Rightarrow> False)"

definition valid_broker :: "toml \<Rightarrow> bool" where
  "valid_broker broker =
     (case broker of
        TTable kvs \<Rightarrow>
          present_and valid_id kvs ''id'' \<and> map_of kvs ''name'' \<noteq> None \<and>
          present_and valid_domain kvs ''domain'' \<and> present_and valid_category kvs ''category''
      | _ \<Rightarrow> False)"

definition valid_removal :: "toml \<Rightarrow> bool" where
  "valid_removal removal =
     (case removal of
        TTable kvs \<Rightarrow> present_and valid_method kvs ''method'' \<and> absent_or valid_url kvs ''url''
      | _ \<Rightarrow> False)"

definition valid_record :: "(string \<times> toml) list \<Rightarrow> bool" where
  "valid_record data =
     (present_and valid_broker data ''broker'' \<and> present_and valid_removal data ''removal'' \<and>
      absent_or valid_jurisdictions data ''jurisdictions'')"

text \<open>What the batch runner prints for one path argument when its validation does not
  raise.\<close>

definition report :: "filesystem \<Rightarrow> string \<Rightarrow> string list" where
  "report fs filepath =
     (if path_name filepath \<in> SKIP_FILES then [''SKIP: '' @ filepath @ '' (documentation)'']
      else if fs filepath = None then [''ERROR: File not found: '' @ filepath]
      else
        (case validate_broker_toml fs filepath of
           Inl e \<Rightarrow> []
         | Inr errors \<Rightarrow>
             if errors = [] then [''OK: '' @ filepath]
             else (''ERROR: '' @ filepath) # map (\<lambda>error. ''  - '' @ error) errors))"

text \<open>A path argument that the batch runner accepts: skipped, or present and validated
  with no diagnostic.\<close>

definition passes :: "filesystem \<Rightarrow> string \<Rightarrow> bool" where
  "passes fs filepath =
     (if path_name filepath \<in> SKIP_FILES then True
      else if fs filepath = None then False
      else validate_broker_toml fs filepath = Inr [])"

text \<open>A path argument whose validation raises an exception.\<close>

definition raises :: "filesystem \<Rightarrow> string \<Rightarrow> bool" where
  "raises fs filepath =
     (if path_name filepath \<in> SKIP_FILES then False
      else if fs filepath = None then False
      else (case validate_broker_toml fs filepath of Inl e \<Rightarrow> True | Inr errors \<Rightarrow> False))"

text \<open>Example records.\<close>

definition spokeo :: "(string \<times> toml) list" where
  "spokeo =
     [(''broker'', TTable [(''id'', TStr ''spokeo''), (''name'', TStr ''Spokeo''),
        (''domain'', TStr ''spokeo.com''), (''category'', TStr ''people-search'')]),
      (''removal'', TTable [(''method'', TList [TStr ''web-form'', TStr ''email'']),
        (''url'', TStr ''https://www.spokeo.com/optout'')])]"

definition spokeo_numeric_id :: "(string \<times> toml) list" where
  "spokeo_numeric_id =
     [(''broker'', TTable [(''id'', TInt 5), (''name'', TStr ''Spokeo''),
        (''domain'', TStr ''spokeo.com''), (''category'', TStr ''people-search'')]),
      (''removal'', TTable [(''method'', TStr ''web-form'')])]"

definition spokeo_unknown_law :: "(string \<times> toml) list" where
  "spokeo_unknown_law = spokeo @ [(''jurisdictions'', TList [TTable [(''law'', TStr ''xx'')]])]"

definition spokeo_no_methods :: "(string \<times> toml) list" where
  "spokeo_no_methods =
     [(''broker'', TTable [(''id'', TStr ''spokeo''), (''name'', TStr ''Spokeo''),
        (''domain'', TStr ''spokeo.com''), (''category'', TStr ''people-search'')]),
      (''removal'', TTable [(''method'', TList [])])]"

definition disk :: filesystem where
  "disk =
     [''brokers/spokeo.toml'' \<mapsto> Document spokeo,
      ''brokers/empty.toml'' \<mapsto> Document [],
      ''brokers/numeric.toml'' \<mapsto> Document spokeo_numeric_id,
      ''brokers/law.toml'' \<mapsto> Document spokeo_unknown_law,
      ''brokers/methods.toml'' \<mapsto> Document spokeo_no_methods,
      ''brokers/schema.toml'' \<mapsto> Malformed ''Invalid statement (at line 1, column 1)'']"

section \<open>Basic facts\<close>

lemma then_do_Inr [simp]: "then_do (Inr x) f = f x"
  by (simp add: then_do_def)

lemma then_do_Inl [simp]: "then_do (Inl e) f = Inl e"
  by (simp add: then_do_def)

lemma then_do_eq_Inr: "then_do m f = Inr y \<longleftrightarrow> (\<exists>x. m = Inr x \<and> f x = Inr y)"
  by (cases m) simp_all

lemma startswith_Nil [simp]: "startswith s []"
  by (simp add: startswith_def)

lemma startswith_Cons [simp]: "startswith (c # s) (d # p) \<longleftrightarrow> c = d \<and> startswith s p"
  by (simp add: startswith_def)

lemma startswith_Nil_Cons [simp]: "\<not> startswith [] (d # p)"
  by (simp add: startswith_def)

lemma one_of_categories:
  "one_of VALID_CATEGORIES = ''background-check, data-aggregator, financial, government-records, marketing, other, people-search, social-media''"
  unfolding one_of_def VALID_CATEGORIES_def by code_simp


lemma one_of_jurisdictions:
  "one_of VALID_JURISDICTIONS = ''ccpa, cpa, ctdpa, gdpr, global, ucpa, vcdpa''"
  unfolding one_of_def VALID_JURISDICTIONS_def by code_simp

lemma str_contains_space: "str_contains s '' '' \<longleftrightarrow> CHR '' '' \<in> set s"
  by (induction s) auto

section \<open>The empty document\<close>

text \<open>
  Claim C1. A record that lacks a required field gets one missing-field diagnostic for
  it, or one missing-section diagnostic when the section is absent, and this is to hold
  for the record that parses to the empty mapping. The check of required fields itself
  reports both sections of the empty mapping as missing, but \<open>validate_broker_toml\<close>
  never reaches it: the test \<^verbatim>\<open>if not data\<close>, meant for a failed load, is also true
  of the empty mapping, and the file is returned as valid.
\<close>

theorem empty_document_reports_nothing:
  "validate_required_fields [] =
     Inr [''Missing required section: [broker]'', ''Missing required section: [removal]'']
   \<and> validate_broker_toml [''brokers/empty.toml'' \<mapsto> Document []] ''brokers/empty.toml'' = Inr []"
  by (simp add: validate_required_fields_def REQUIRED_FIELDS_def validate_broker_toml_def
      load_toml_def)

section \<open>Kinds of diagnostics\<close>

lemma startswith_comparable:
  assumes "startswith e p" and "startswith e q"
  shows "startswith p q \<or> startswith q p"
proof (cases "length p \<le> length q")
  case True
  have "take (length p) q = take (length p) (take (length q) e)"
    using assms(2) by (simp add: startswith_def)
  also have "\<dots> = take (length p) e"
    using True by (simp add: min_def)
  finally show ?thesis
    using assms(1) by (simp add: startswith_def)
next
  case False
  have "take (length q) p = take (length q) (take (length p) e)"
    using assms(1) by (simp add: startswith_def)
  also have "\<dots> = take (length q) e"
    using False by (simp add: min_def)
  finally show ?thesis
    using assms(2) by (simp add: startswith_def)
qed

lemma filter_other_kind:
  assumes "list_all P es" and "\<And>e. P e \<Longrightarrow> \<not> Q e"
  shows "filter Q es = []"
  using assms by (induction es) auto

lemma filter_same_kind: "list_all P es \<Longrightarrow> filter P es = es"
  by (induction es) auto

lemma url_not_method: "is_url_diagnostic e \<Longrightarrow> \<not> is_method_diagnostic e"
  unfolding is_url_diagnostic_def is_method_diagnostic_def
  by (auto dest: startswith_comparable)

section \<open>The removal section: the method field\<close>

lemma removal_method_errors_table:
  "removal_method_errors (TTable kvs) =
     (case map_of kvs ''method'' of
        None \<Rightarrow> Inr []
      | Some method \<Rightarrow>
          then_do (method_enum_errors (resolve_methods method)) (\<lambda>errors.
            Inr ((if resolve_methods method = [] then [method_shape_message] else []) @ errors)))"
  by (simp add: removal_method_errors_def py_contains_def py_getitem_def split: option.splits)


lemma method_enum_errors_kind:
  "method_enum_errors ms = Inr es \<Longrightarrow> list_all is_method_diagnostic es"
proof (induction ms arbitrary: es)
  case Nil
  then show ?case by simp
next
  case (Cons m ms)
  then show ?case
    by (auto simp: then_do_eq_Inr is_method_diagnostic_def split: if_splits)
qed

lemma removal_method_errors_kind:
  assumes "removal_method_errors removal = Inr es"
  shows "list_all is_method_diagnostic es"
proof -
  have shape: "is_method_diagnostic method_shape_message"
    by (simp add: is_method_diagnostic_def method_shape_message_def)
  from assms show ?thesis
    unfolding removal_method_errors_def
    by (auto simp: then_do_eq_Inr shape dest: method_enum_errors_kind split: if_splits)
qed

lemma removal_url_errors_kind:
  "removal_url_errors removal = Inr es \<Longrightarrow> list_all is_url_diagnostic es"
  unfolding removal_url_errors_def
  by (auto simp: then_do_eq_Inr is_url_diagnostic_def split: if_splits)

lemma removal_method_diagnostics:
  assumes "validate_removal_section removal = Inr errors"
  shows "\<exists>method_errors. removal_method_errors removal = Inr method_errors \<and>
           filter is_method_diagnostic errors = method_errors"
proof -
  from assms obtain method_errors url_errors where
    m: "removal_method_errors removal = Inr method_errors" and
    u: "removal_url_errors removal = Inr url_errors" and
    e: "errors = method_errors @ url_errors"
    by (auto simp: validate_removal_section_def then_do_eq_Inr)
  have "filter is_method_diagnostic url_errors = []"
    using removal_url_errors_kind [OF u] url_not_method by (rule filter_other_kind)
  moreover have "filter is_method_diagnostic method_errors = method_errors"
    using removal_method_errors_kind [OF m] by (rule filter_same_kind)
  ultimately show ?thesis
    using m e by simp
qed

text \<open>
  Claim C10. When the method of a removal section is the empty list, the section gets
  exactly one diagnostic about the method, the one that asks for a string or an array
  of strings, and no enumeration diagnostic.
\<close>

theorem empty_method_list_rejected:
  assumes "map_of removal ''method'' = Some (TList [])"
    and "validate_removal_section (TTable removal) = Inr errors"
  shows "filter is_method_diagnostic errors =
           [''removal.method must be a string or array of strings'']"
proof -
  have "removal_method_errors (TTable removal) = Inr [method_shape_message]"
    using assms(1) by (simp add: removal_method_errors_table resolve_methods_def)
  with removal_method_diagnostics [OF assms(2)] show ?thesis
    by (simp add: method_shape_message_def)
qed

theorem empty_method_list_rejected_witness:
  "validate_removal_section (TTable [(''method'', TList [])]) =
     Inr [''removal.method must be a string or array of strings'']
   \<and> filter is_method_diagnostic [''removal.method must be a string or array of strings''] =
     [''removal.method must be a string or array of strings'']"
proof -
  have run: "validate_removal_section (TTable [(''method'', TList [])]) =
      Inr [''removal.method must be a string or array of strings'']"
    by (simp add: validate_removal_section_def removal_method_errors_table
        removal_url_errors_def resolve_methods_def py_contains_def method_shape_message_def)
  from empty_method_list_rejected [OF _ run] run show ?thesis
    by simp
qed




section \<open>The broker section\<close>

lemma broker_category_errors_table:
  "broker_category_errors (TTable kvs) =
     (case map_of kvs ''category'' of
        None \<Rightarrow> Inr []
      | Some category \<Rightarrow>
          then_do (py_in_set category VALID_CATEGORIES) (\<lambda>valid.
            Inr (if valid then [] else [invalid_category_message (py_str category)])))"
proof -
  have listing: "one_of VALID_CATEGORIES = join '', '' sorted_categories"
    unfolding one_of_categories by code_simp
  show ?thesis
    unfolding broker_category_errors_def invalid_category_message_def listing
    by (simp add: py_contains_def py_getitem_def split: option.splits)
qed

lemma broker_domain_errors_table:
  "broker_domain_errors (TTable kvs) =
     (case map_of kvs ''domain'' of
        None \<Rightarrow> Inr []
      | Some domain \<Rightarrow>
          then_do (domain_rejected domain) (\<lambda>rejected.
            Inr (if rejected then [invalid_domain_message (py_str domain)] else [])))"
  unfolding broker_domain_errors_def invalid_domain_message_def
  by (simp add: py_contains_def py_getitem_def split: option.splits)

lemma broker_id_errors_table:
  "broker_id_errors (TTable kvs) =
     (case map_of kvs ''id'' of
        None \<Rightarrow> Inr []
      | Some broker_id \<Rightarrow>
          then_do (attr_replace broker_id CHR ''-'') (\<lambda>stripped.
            Inr ((if isalnum (replace_with_empty CHR ''_'' stripped) then []
                  else [invalid_id_message (py_str broker_id)])
                 @ (if py_str broker_id = lower (py_str broker_id) then []
                    else [uppercase_id_message (py_str broker_id)]))))"
  unfolding broker_id_errors_def invalid_id_message_def uppercase_id_message_def
  by (simp add: py_contains_def py_getitem_def split: option.splits)

lemma broker_category_errors_kind:
  "broker_category_errors broker = Inr es \<Longrightarrow> list_all is_category_diagnostic es"
  unfolding broker_category_errors_def
  by (auto simp: then_do_eq_Inr is_category_diagnostic_def split: if_splits)

lemma broker_domain_errors_kind:
  "broker_domain_errors broker = Inr es \<Longrightarrow> list_all is_domain_diagnostic es"
  unfolding broker_domain_errors_def
  by (auto simp: then_do_eq_Inr is_domain_diagnostic_def split: if_splits)

lemma broker_id_errors_kind:
  "broker_id_errors broker = Inr es \<Longrightarrow> list_all is_id_diagnostic es"
  unfolding broker_id_errors_def
  by (auto simp: then_do_eq_Inr is_id_diagnostic_def split: if_splits)

lemma category_not_domain: "is_category_diagnostic e \<Longrightarrow> \<not> is_domain_diagnostic e"
  unfolding is_category_diagnostic_def is_domain_diagnostic_def
  by (auto dest: startswith_comparable)

lemma category_not_id: "is_category_diagnostic e \<Longrightarrow> \<not> is_id_diagnostic e"
  unfolding is_category_diagnostic_def is_id_diagnostic_def
  by (auto dest: startswith_comparable)

lemma domain_not_category: "is_domain_diagnostic e \<Longrightarrow> \<not> is_category_diagnostic e"
  using category_not_domain by blast

lemma domain_not_id: "is_domain_diagnostic e \<Longrightarrow> \<not> is_id_diagnostic e"
  unfolding is_domain_diagnostic_def is_id_diagnostic_def
  by (auto dest: startswith_comparable)

lemma id_not_category: "is_id_diagnostic e \<Longrightarrow> \<not> is_category_diagnostic e"
  using category_not_id by blast

lemma id_not_domain: "is_id_diagnostic e \<Longrightarrow> \<not> is_domain_diagnostic e"
  using domain_not_id by blast

text \<open>The diagnostics of each kind in the result of the section validator are the ones
  its block for that field appended.\<close>

lemma broker_diagnostics:
  assumes "validate_broker_section broker = Inr errors"
  shows "broker_category_errors broker = Inr (filter is_category_diagnostic errors)"
    and "broker_domain_errors broker = Inr (filter is_domain_diagnostic errors)"
    and "broker_id_errors broker = Inr (filter is_id_diagnostic errors)"
proof -
  from assms obtain cs ds ids where
    c: "broker_category_errors broker = Inr cs" and
    d: "broker_domain_errors broker = Inr ds" and
    i: "broker_id_errors broker = Inr ids" and
    e: "errors = cs @ ds @ ids"
    by (auto simp: validate_broker_section_def then_do_eq_Inr)
  note ck = broker_category_errors_kind [OF c]
  note dk = broker_domain_errors_kind [OF d]
  note ik = broker_id_errors_kind [OF i]
  have "filter is_category_diagnostic errors = cs"
    using e filter_same_kind [OF ck] filter_other_kind [OF dk domain_not_category]
      filter_other_kind [OF ik id_not_category]
    by simp
  then show "broker_category_errors broker = Inr (filter is_category_diagnostic errors)"
    using c by simp
  have "filter is_domain_diagnostic errors = ds"
    using e filter_same_kind [OF dk] filter_other_kind [OF ck category_not_domain]
      filter_other_kind [OF ik id_not_domain]
    by simp
  then show "broker_domain_errors broker = Inr (filter is_domain_diagnostic errors)"
    using d by simp
  have "filter is_id_diagnostic errors = ids"
    using e filter_same_kind [OF ik] filter_other_kind [OF ck category_not_id]
      filter_other_kind [OF dk domain_not_id]
    by simp
  then show "broker_id_errors broker = Inr (filter is_id_diagnostic errors)"
    using i by simp
qed

lemma sorted_categories_listing:
  "set sorted_categories = VALID_CATEGORIES \<and> sorted sorted_categories
   \<and> distinct sorted_categories"
  unfolding sorted_categories_def VALID_CATEGORIES_def by code_simp

text \<open>
  Claim C5. A category that is present and outside the category set gets exactly one
  diagnostic, whose text lists the whole set in ascending order; a category inside the
  set gets none. The category is a value that can be looked up in a set (not an array,
  not a table), and the section is one whose validation returns.
\<close>

theorem category_diagnostic:
  assumes "map_of broker ''category'' = Some category"
    and "hashable category"
    and "validate_broker_section (TTable broker) = Inr errors"
  shows "filter is_category_diagnostic errors =
           (if valid_category category then []
            else [invalid_category_message (py_str category)])
         \<and> set sorted_categories = VALID_CATEGORIES \<and> sorted sorted_categories
         \<and> distinct sorted_categories"
proof -
  have "py_in_set category VALID_CATEGORIES = Inr (valid_category category)"
    using assms(2)
    by (cases category) (simp_all add: py_in_set_def valid_category_def hashable_def)
  then have "broker_category_errors (TTable broker) =
      Inr (if valid_category category then [] else [invalid_category_message (py_str category)])"
    using assms(1) by (simp add: broker_category_errors_table)
  with broker_diagnostics(1) [OF assms(3)] sorted_categories_listing show ?thesis
    by simp
qed

theorem category_diagnostic_witness:
  "filter is_category_diagnostic
     [''Invalid category 'gossip'. Must be one of: background-check, data-aggregator, financial, government-records, marketing, other, people-search, social-media'',
      ''Broker ID 'Spokeo' must be lowercase.''] =
     [''Invalid category 'gossip'. Must be one of: background-check, data-aggregator, financial, government-records, marketing, other, people-search, social-media'']
   \<and> validate_broker_section (TTable [(''id'', TStr ''Spokeo''), (''category'', TStr ''gossip'')]) =
     Inr [''Invalid category 'gossip'. Must be one of: background-check, data-aggregator, financial, government-records, marketing, other, people-search, social-media'',
          ''Broker ID 'Spokeo' must be lowercase.'']
   \<and> filter is_category_diagnostic [''Broker ID 'Spokeo' must be lowercase.''] = []
   \<and> validate_broker_section (TTable [(''id'', TStr ''Spokeo''), (''category'', TStr ''other'')]) =
     Inr [''Broker ID 'Spokeo' must be lowercase.'']"
proof -
  let ?bad = "[(''id'', TStr ''Spokeo''), (''category'', TStr ''gossip'')]"
  let ?good = "[(''id'', TStr ''Spokeo''), (''category'', TStr ''other'')]"
  let ?c = "''Invalid category 'gossip'. Must be one of: background-check, data-aggregator, financial, government-records, marketing, other, people-search, social-media''"
  let ?u = "''Broker ID 'Spokeo' must be lowercase.''"
  have bad: "validate_broker_section (TTable ?bad) = Inr [?c, ?u]"
    by code_simp
  have good: "validate_broker_section (TTable ?good) = Inr [?u]"
    by code_simp
  have rendered: "invalid_category_message (py_str (TStr ''gossip'')) = ?c"
    by code_simp
  have out: "\<not> valid_category (TStr ''gossip'')" and inside: "valid_category (TStr ''other'')"
    by code_simp+
  have "filter is_category_diagnostic [?c, ?u] = [?c]"
    using category_diagnostic [OF _ _ bad, of "TStr ''gossip''"] out
    by (simp only: rendered) (simp add: hashable_def)
  moreover have "filter is_category_diagnostic [?u] = []"
    using category_diagnostic [OF _ _ good, of "TStr ''other''"] inside
    by (simp add: hashable_def)
  ultimately show ?thesis
    using bad good by (intro conjI)
qed

lemma startswith_http: "startswith s ''http'' \<longleftrightarrow> take 4 s = ''http''"
proof -
  have "length ''http'' = 4"
    by simp
  then show ?thesis
    unfolding startswith_def by (simp only:)
qed

lemma domain_rejected_string:
  "domain_rejected (TStr s) = Inr (s = [] \<or> CHR '' '' \<in> set s \<or> take 4 s = ''http'')"
  by (auto simp: domain_rejected_def truthy_def py_contains_def attr_startswith_def
      str_contains_space startswith_http)



lemma lower_char_fixed: "lower_char c = c \<longleftrightarrow> \<not> is_uppercase c"
proof (cases "is_uppercase c")
  case True
  then have small: "(of_char c :: nat) + 32 < 256"
    by (auto simp: is_uppercase_def Let_def)
  have "char_of ((of_char c :: nat) + 32) \<noteq> c"
  proof
    assume "char_of ((of_char c :: nat) + 32) = c"
    then have "(of_char (char_of ((of_char c :: nat) + 32)) :: nat) = of_char c"
      by simp
    with small show False
      by simp
  qed
  with True show ?thesis
    by (simp add: lower_char_def)
next
  case False
  then show ?thesis
    by (simp add: lower_char_def)
qed

lemma lower_fixed: "s = lower s \<longleftrightarrow> \<not> list_ex is_uppercase s"
proof (induction s)
  case Nil
  show ?case by (simp add: lower_def)
next
  case (Cons c s)
  have "c = lower_char c \<longleftrightarrow> \<not> is_uppercase c"
    using lower_char_fixed [of c] by auto
  with Cons show ?case
    by (simp add: lower_def)
qed

lemma strip_hyphens_underscores:
  "replace_with_empty CHR ''_'' (replace_with_empty CHR ''-'' s) =
     filter (\<lambda>c. c \<noteq> CHR ''-'' \<and> c \<noteq> CHR ''_'') s"
  by (induction s) (simp_all add: replace_with_empty_def)

text \<open>
  Claim C7. An id that is present goes through two checks, and each adds its own
  diagnostic: one when the id, with its hyphens and underscores removed, is not
  alphanumeric, and one when the id has an upper-case character. So \<^verbatim>\<open>Spokeo-1\<close> gets
  the second diagnostic only and \<^verbatim>\<open>spokeo!\<close> the first only. The id is a string, and
  the section is one whose validation returns.
\<close>

theorem id_diagnostics:
  assumes "map_of broker ''id'' = Some (TStr broker_id)"
    and "validate_broker_section (TTable broker) = Inr errors"
  shows "filter is_id_diagnostic errors =
           (if isalnum (filter (\<lambda>c. c \<noteq> CHR ''-'' \<and> c \<noteq> CHR ''_'') broker_id) then []
            else [invalid_id_message broker_id])
           @ (if list_ex is_uppercase broker_id then [uppercase_id_message broker_id] else [])"
proof -
  have "broker_id_errors (TTable broker) =
      Inr ((if isalnum (filter (\<lambda>c. c \<noteq> CHR ''-'' \<and> c \<noteq> CHR ''_'') broker_id) then []
            else [invalid_id_message broker_id])
           @ (if list_ex is_uppercase broker_id then [uppercase_id_message broker_id] else []))"
    using assms(1)
    by (simp add: broker_id_errors_table attr_replace_def py_str_def strip_hyphens_underscores
        lower_fixed)
  with broker_diagnostics(3) [OF assms(2)] show ?thesis
    by simp
qed

theorem id_diagnostics_witness:
  "validate_broker_section (TTable [(''id'', TStr ''Spokeo-1'')]) =
     Inr [''Broker ID 'Spokeo-1' must be lowercase.'']
   \<and> filter is_id_diagnostic [''Broker ID 'Spokeo-1' must be lowercase.''] =
     [] @ [''Broker ID 'Spokeo-1' must be lowercase.'']
   \<and> validate_broker_section (TTable [(''id'', TStr ''spokeo!'')]) =
     Inr [''Invalid broker ID 'spokeo!'. Use lowercase alphanumeric with hyphens.'']
   \<and> filter is_id_diagnostic
       [''Invalid broker ID 'spokeo!'. Use lowercase alphanumeric with hyphens.''] =
     [''Invalid broker ID 'spokeo!'. Use lowercase alphanumeric with hyphens.''] @ []
   \<and> validate_broker_section (TTable [(''id'', TStr ''Spokeo!'')]) =
     Inr [''Invalid broker ID 'Spokeo!'. Use lowercase alphanumeric with hyphens.'',
          ''Broker ID 'Spokeo!' must be lowercase.'']"
proof -
  let ?u = "''Broker ID 'Spokeo-1' must be lowercase.''"
  let ?a = "''Invalid broker ID 'spokeo!'. Use lowercase alphanumeric with hyphens.''"
  have upper: "validate_broker_section (TTable [(''id'', TStr ''Spokeo-1'')]) = Inr [?u]"
    by code_simp
  have bang: "validate_broker_section (TTable [(''id'', TStr ''spokeo!'')]) = Inr [?a]"
    by code_simp
  have both: "validate_broker_section (TTable [(''id'', TStr ''Spokeo!'')]) =
     Inr [''Invalid broker ID 'Spokeo!'. Use lowercase alphanumeric with hyphens.'',
          ''Broker ID 'Spokeo!' must be lowercase.'']"
    by code_simp
  have first: "(if isalnum (filter (\<lambda>c. c \<noteq> CHR ''-'' \<and> c \<noteq> CHR ''_'') ''Spokeo-1'') then []
            else [invalid_id_message ''Spokeo-1''])
           @ (if list_ex is_uppercase ''Spokeo-1'' then [uppercase_id_message ''Spokeo-1''] else [])
       = [] @ [?u]"
    by code_simp
  have second: "(if isalnum (filter (\<lambda>c. c \<noteq> CHR ''-'' \<and> c \<noteq> CHR ''_'') ''spokeo!'') then []
            else [invalid_id_message ''spokeo!''])
           @ (if list_ex is_uppercase ''spokeo!'' then [uppercase_id_message ''spokeo!''] else [])
       = [?a] @ []"
    by code_simp
  have "filter is_id_diagnostic [?u] = [] @ [?u]"
    using id_diagnostics [OF _ upper, of "''Spokeo-1''"] by (simp only: first) simp
  moreover have "filter is_id_diagnostic [?a] = [?a] @ []"
    using id_diagnostics [OF _ bang, of "''spokeo!''"] by (simp only: second) simp
  ultimately show ?thesis
    using upper bang both by (intro conjI)
qed

section \<open>Records on which the validator raises no exception\<close>






lemma removal_url_errors_table:
  "removal_url_errors (TTable kvs) =
     (case map_of kvs ''url'' of
        None \<Rightarrow> Inr []
      | Some url \<Rightarrow>
          then_do (attr_startswith url [''http://'', ''https://'']) (\<lambda>full.
            Inr (if full then [] else [invalid_url_message (py_str url)])))"
  unfolding removal_url_errors_def invalid_url_message_def
  by (simp add: py_contains_def py_getitem_def split: option.splits)








section \<open>Records that satisfy every rule\<close>

lemma id_char_cases:
  assumes "id_char c"
  shows "\<not> is_uppercase c" and "c = CHR ''-'' \<or> c = CHR ''_'' \<or> isalnum_char c"
  using assms by (auto simp: id_char_def is_uppercase_def isalnum_char_def)

lemma valid_id_string:
  assumes "list_all id_char s" and "list_ex (\<lambda>c. c \<noteq> CHR ''-'' \<and> c \<noteq> CHR ''_'') s"
  shows "isalnum (filter (\<lambda>c. c \<noteq> CHR ''-'' \<and> c \<noteq> CHR ''_'') s)"
    and "\<not> list_ex is_uppercase s"
proof -
  have "list_all isalnum_char (filter (\<lambda>c. c \<noteq> CHR ''-'' \<and> c \<noteq> CHR ''_'') s)"
    using assms(1) id_char_cases(2) by (induction s) auto
  moreover have "filter (\<lambda>c. c \<noteq> CHR ''-'' \<and> c \<noteq> CHR ''_'') s \<noteq> []"
    using assms(2) by (induction s) auto
  ultimately show "isalnum (filter (\<lambda>c. c \<noteq> CHR ''-'' \<and> c \<noteq> CHR ''_'') s)"
    by (simp add: isalnum_def)
  show "\<not> list_ex is_uppercase s"
    using assms(1) id_char_cases(1) by (induction s) auto
qed

lemma valid_broker_section:
  assumes "valid_broker broker"
  shows "validate_broker_section broker = Inr []"
    and "missing_fields ''broker'' broker [''id'', ''name'', ''domain'', ''category''] = Inr []"
proof -
  from assms obtain kvs where table: "broker = TTable kvs"
    by (cases broker) (auto simp: valid_broker_def)
  from assms table obtain i d c where
    i: "map_of kvs ''id'' = Some (TStr i)" "valid_id (TStr i)" and
    n: "map_of kvs ''name'' \<noteq> None" and
    d: "map_of kvs ''domain'' = Some (TStr d)" "valid_domain (TStr d)" and
    c: "map_of kvs ''category'' = Some (TStr c)" "valid_category (TStr c)"
    by (auto simp: valid_broker_def present_and_def valid_id_def valid_domain_def
        valid_category_def split: option.splits toml.splits)
  have "broker_category_errors (TTable kvs) = Inr []"
    using c by (simp add: broker_category_errors_table py_in_set_def valid_category_def)
  moreover have "broker_domain_errors (TTable kvs) = Inr []"
    using d by (simp add: broker_domain_errors_table domain_rejected_string valid_domain_def)
  moreover have "broker_id_errors (TTable kvs) = Inr []"
    using i valid_id_string [of i]
    by (simp add: broker_id_errors_table attr_replace_def py_str_def strip_hyphens_underscores
        lower_fixed valid_id_def)
  ultimately show "validate_broker_section broker = Inr []"
    using table by (simp add: validate_broker_section_def)
  show "missing_fields ''broker'' broker [''id'', ''name'', ''domain'', ''category''] = Inr []"
    using table i(1) n d(1) c(1) by (simp add: py_contains_def)
qed

lemma valid_method_entries:
  "list_all valid_method_entry ms \<Longrightarrow> method_enum_errors ms = Inr []"
proof (induction ms)
  case Nil
  show ?case by simp
next
  case (Cons m ms)
  then obtain s where "m = TStr s" and "s \<in> VALID_REMOVAL_METHODS"
    by (cases m) (auto simp: valid_method_entry_def)
  with Cons show ?case
    by (simp add: py_in_set_def)
qed

lemma startswith_full_url:
  "startswith s ''http://'' \<or> startswith s ''https://'' \<longleftrightarrow>
     take 7 s = ''http://'' \<or> take 8 s = ''https://''"
proof -
  have "length ''http://'' = 7" and "length ''https://'' = 8"
    by simp_all
  then show ?thesis
    unfolding startswith_def by (simp only:)
qed

lemma valid_removal_section:
  assumes "valid_removal removal"
  shows "validate_removal_section removal = Inr []"
    and "missing_fields ''removal'' removal [''method''] = Inr []"
proof -
  from assms obtain kvs where table: "removal = TTable kvs"
    by (cases removal) (auto simp: valid_removal_def)
  from assms table obtain chosen where
    m: "map_of kvs ''method'' = Some chosen" "valid_method chosen" and
    u: "absent_or valid_url kvs ''url''"
    by (auto simp: valid_removal_def present_and_def split: option.splits)
  have resolved: "resolve_methods chosen \<noteq> [] \<and> list_all valid_method_entry (resolve_methods chosen)"
    using m(2) by (cases chosen) (auto simp: valid_method_def resolve_methods_def valid_method_entry_def)
  then have "removal_method_errors (TTable kvs) = Inr []"
    using m(1) valid_method_entries [of "resolve_methods chosen"]
    by (simp add: removal_method_errors_table)
  moreover have "removal_url_errors (TTable kvs) = Inr []"
  proof (cases "map_of kvs ''url''")
    case None
    then show ?thesis by (simp add: removal_url_errors_table)
  next
    case (Some url)
    with u obtain s where "url = TStr s" and "take 7 s = ''http://'' \<or> take 8 s = ''https://''"
      by (cases url) (auto simp: absent_or_def valid_url_def)
    with Some show ?thesis
      by (simp add: removal_url_errors_table attr_startswith_def startswith_full_url)
  qed
  ultimately show "validate_removal_section removal = Inr []"
    using table by (simp add: validate_removal_section_def)
  show "missing_fields ''removal'' removal [''method''] = Inr []"
    using table m(1) by (simp add: py_contains_def)
qed

lemma valid_jurisdictions_loop:
  "list_all valid_jurisdiction js \<Longrightarrow> jurisdictions_loop js = Inr []"
proof (induction js)
  case Nil
  show ?case by simp
next
  case (Cons j js)
  have "jurisdiction_errors j = Inr []"
  proof (cases j)
    case (TTable kvs)
    show ?thesis
    proof (cases "map_of kvs ''law''")
      case None
      with TTable show ?thesis by (simp add: jurisdiction_errors_def)
    next
      case (Some law)
      with Cons.prems TTable obtain s where "law = TStr s" and "s \<in> VALID_JURISDICTIONS"
        by (cases law) (auto simp: valid_jurisdiction_def absent_or_def valid_law_def)
      with Some TTable show ?thesis
        by (simp add: jurisdiction_errors_def py_in_set_def)
    qed
  qed (simp_all add: jurisdiction_errors_def)
  with Cons show ?case by simp
qed

lemma valid_jurisdictions_section:
  assumes "absent_or valid_jurisdictions data ''jurisdictions''"
  shows "section_errors data ''jurisdictions'' validate_jurisdictions = Inr []"
proof (cases "map_of data ''jurisdictions''")
  case None
  then show ?thesis by (simp add: section_errors_def)
next
  case (Some content)
  with assms obtain js where "content = TList js" and "list_all valid_jurisdiction js"
    by (cases content) (auto simp: absent_or_def valid_jurisdictions_def)
  with Some valid_jurisdictions_loop show ?thesis
    by (simp add: section_errors_def validate_jurisdictions_def py_iter_def)
qed

text \<open>
  Claim C3, as stated: a record with every required field, a category and methods in
  their enumerations, a well-formed id and domain and, if any, a URL with a scheme
  gets no diagnostic. The record \<open>spokeo_unknown_law\<close> satisfies all that and has a
  jurisdiction whose law is not in the jurisdiction enumeration: it gets a
  diagnostic. So does \<open>spokeo_no_methods\<close>, whose method is the empty list, in which
  every method is in the enumeration.
\<close>

theorem valid_fields_counterexample:
  "present_and valid_broker spokeo_unknown_law ''broker''
   \<and> present_and valid_removal spokeo_unknown_law ''removal''
   \<and> validate_broker_toml disk ''brokers/law.toml'' = Inr [invalid_jurisdiction_message ''xx'']
   \<and> present_and valid_broker spokeo_no_methods ''broker''
   \<and> validate_broker_toml disk ''brokers/methods.toml'' =
       Inr [''removal.method must be a string or array of strings'']"
  by code_simp

text \<open>
  Claim C3, amended. A record gets no diagnostic when its \<open>broker\<close> section has a
  name, an id made of lower-case letters, digits, hyphens and underscores with at
  least one letter or digit, a non-empty domain with no space that does not start
  with \<^verbatim>\<open>http\<close>, and a category in the category enumeration; its \<open>removal\<close> section has
  a method that is a string in the method enumeration or a non-empty list of such
  strings, and no URL or one that starts with \<^verbatim>\<open>http://\<close> or \<^verbatim>\<open>https://\<close>; and its
  \<open>jurisdictions\<close>, if present, is a list whose tables have no law or a law in the
  jurisdiction enumeration.
\<close>

theorem valid_record_accepted:
  assumes "fs filepath = Some (Document data)"
    and "valid_record data"
  shows "validate_broker_toml fs filepath = Inr []"
proof -
  from assms(2) obtain broker removal where
    b: "map_of data ''broker'' = Some broker" "valid_broker broker" and
    r: "map_of data ''removal'' = Some removal" "valid_removal removal" and
    j: "absent_or valid_jurisdictions data ''jurisdictions''"
    by (auto simp: valid_record_def present_and_def split: option.splits)
  from b(1) have filled: "data \<noteq> []"
    by auto
  have "validate_required_fields data = Inr []"
    using b(1) r(1) valid_broker_section(2) [OF b(2)] valid_removal_section(2) [OF r(2)]
    by (simp add: validate_required_fields_def REQUIRED_FIELDS_def)
  moreover have "section_errors data ''broker'' validate_broker_section = Inr []"
    using b(1) valid_broker_section(1) [OF b(2)] by (simp add: section_errors_def)
  moreover have "section_errors data ''removal'' validate_removal_section = Inr []"
    using r(1) valid_removal_section(1) [OF r(2)] by (simp add: section_errors_def)
  ultimately show ?thesis
    using assms(1) filled valid_jurisdictions_section [OF j]
    by (simp add: validate_broker_toml_def load_toml_def)
qed

theorem valid_record_accepted_witness:
  "disk ''brokers/spokeo.toml'' = Some (Document spokeo) \<and> valid_record spokeo
   \<and> validate_broker_toml disk ''brokers/spokeo.toml'' = Inr []"
proof -
  have stored: "disk ''brokers/spokeo.toml'' = Some (Document spokeo)"
    by (simp add: disk_def)
  have valid: "valid_record spokeo"
    by code_simp
  from valid_record_accepted [of disk "''brokers/spokeo.toml''" spokeo, OF stored valid]
    stored valid
  show ?thesis
    by (intro conjI)
qed

section \<open>The batch runner\<close>

lemma main_loop_printed:
  "main_loop fs args all_valid printed =
     (printed @ fst (main_loop fs args all_valid []), snd (main_loop fs args all_valid []))"
proof (induction args arbitrary: all_valid printed)
  case Nil
  show ?case by simp
next
  case (Cons filepath rest)
  note step = Cons.IH [of _ "printed @ _"] Cons.IH [of _ "[_]"] Cons.IH [of _ "_ # _"]
  show ?case
  proof (cases "validate_broker_toml fs filepath")
    case (Inl e)
    then show ?thesis
      using step by simp
  next
    case (Inr errors)
    then show ?thesis
      using step by simp
  qed
qed

lemma validate_reads_one_file:
  "fs filepath = fs' filepath \<Longrightarrow> validate_broker_toml fs filepath = validate_broker_toml fs' filepath"
  by (simp add: validate_broker_toml_def load_toml_def)

lemma main_loop_reads_unskipped_files:
  assumes "\<And>p. p \<in> set args \<Longrightarrow> path_name p \<notin> SKIP_FILES \<Longrightarrow> fs p = fs' p"
  shows "main_loop fs args all_valid printed = main_loop fs' args all_valid printed"
  using assms
proof (induction args arbitrary: all_valid printed)
  case Nil
  show ?case by simp
next
  case (Cons filepath rest)
  have rest: "main_loop fs rest v out = main_loop fs' rest v out" for v out
    using Cons.IH Cons.prems by simp
  show ?case
  proof (cases "path_name filepath \<in> SKIP_FILES")
    case True
    then show ?thesis
      using rest by simp
  next
    case False
    with Cons.prems have same: "fs filepath = fs' filepath"
      by simp
    from validate_reads_one_file [of fs filepath fs', OF this] same False rest show ?thesis
      by (simp split: sum.splits)
  qed
qed

text \<open>One step of the loop, in terms of the report and the verdict of the path.\<close>

lemma main_loop_step:
  assumes "\<not> raises fs filepath"
  shows "main_loop fs (filepath # rest) all_valid printed =
     main_loop fs rest (all_valid \<and> passes fs filepath) (printed @ report fs filepath)"
proof (cases "path_name filepath \<in> SKIP_FILES \<or> fs filepath = None")
  case True
  then show ?thesis
    by (auto simp: report_def passes_def)
next
  case False
  with assms obtain errors where "validate_broker_toml fs filepath = Inr errors"
    by (cases "validate_broker_toml fs filepath") (auto simp: raises_def)
  with False show ?thesis
    by (auto simp: report_def passes_def)
qed

lemma main_loop_raise:
  assumes "raises fs filepath"
  shows "\<exists>e. main_loop fs (filepath # rest) all_valid printed = (printed, Inl e)"
    and "\<not> passes fs filepath"
  using assms
  by (auto simp: raises_def passes_def split: if_splits sum.splits)

lemma main_loop_without_raise:
  assumes "list_all (\<lambda>p. \<not> raises fs p) args"
  shows "main_loop fs args all_valid printed =
     (printed @ concat (map (report fs) args), Inr (all_valid \<and> list_all (passes fs) args))"
  using assms
proof (induction args arbitrary: all_valid printed)
  case Nil
  show ?case by simp
next
  case (Cons filepath rest)
  then have quiet: "\<not> raises fs filepath" and others: "list_all (\<lambda>p. \<not> raises fs p) rest"
    by simp_all
  have "main_loop fs (filepath # rest) all_valid printed =
      main_loop fs rest (all_valid \<and> passes fs filepath) (printed @ report fs filepath)"
    using quiet by (rule main_loop_step)
  also have "\<dots> = ((printed @ report fs filepath) @ concat (map (report fs) rest),
      Inr ((all_valid \<and> passes fs filepath) \<and> list_all (passes fs) rest))"
    using others by (rule Cons.IH)
  finally show ?case
    by simp
qed

lemma main_loop_all_valid:
  "snd (main_loop fs args all_valid printed) = Inr True \<longleftrightarrow>
     all_valid \<and> list_all (passes fs) args"
proof (induction args arbitrary: all_valid printed)
  case Nil
  show ?case by simp
next
  case (Cons filepath rest)
  show ?case
  proof (cases "raises fs filepath")
    case True
    from main_loop_raise(1) [OF True, of rest all_valid printed] main_loop_raise(2) [OF True]
    show ?thesis
      by auto
  next
    case False
    have "main_loop fs (filepath # rest) all_valid printed =
        main_loop fs rest (all_valid \<and> passes fs filepath) (printed @ report fs filepath)"
      using False by (rule main_loop_step)
    then have "snd (main_loop fs (filepath # rest) all_valid printed) = Inr True \<longleftrightarrow>
        (all_valid \<and> passes fs filepath) \<and> list_all (passes fs) rest"
      using Cons.IH [of "all_valid \<and> passes fs filepath" "printed @ report fs filepath"]
      by (simp only:)
    then show ?thesis
      by simp
  qed
qed

lemma exit_code_zero:
  assumes "2 \<le> length argv"
  shows "exit_code (main fs argv) = 0 \<longleftrightarrow> snd (main_loop fs (tl argv) True []) = Inr True"
proof (cases "main_loop fs (tl argv) True []")
  case (Pair printed outcome)
  with assms show ?thesis
    by (cases outcome) (auto simp: exit_code_def main_def)
qed

lemma exit_code_one_or_zero: "exit_code (main fs argv) \<noteq> 0 \<Longrightarrow> exit_code (main fs argv) = 1"
proof (cases "main_loop fs (tl argv) True []")
  case (Pair printed outcome)
  then show "exit_code (main fs argv) \<noteq> 0 \<Longrightarrow> exit_code (main fs argv) = 1"
    by (cases outcome) (auto simp: exit_code_def main_def split: if_splits)
qed

text \<open>
  Claim C8, as stated: for every batch of path arguments a missing path does not stop
  the batch, every remaining path is processed, and the exit code is 0 exactly when
  every path that is not skipped exists and validates with no diagnostic. With no path
  argument every path passes, and the exit code is 1; and in a batch where the file
  after a missing one has an integer id, the validation raises and the file after it is
  never processed.
\<close>

theorem batch_counterexample:
  "main disk [''validate-broker-toml.py''] =
     ([''Usage: validate-broker-toml.py <file1.toml> [file2.toml ...]''], Inr 1)
   \<and> list_all (passes disk) []
   \<and> main disk [''validate-broker-toml.py'', ''brokers/missing.toml'',
        ''brokers/numeric.toml'', ''brokers/spokeo.toml''] =
     ([''ERROR: File not found: brokers/missing.toml''], Inl AttributeError)"
  by code_simp

text \<open>
  Claim C8, amended. For every batch of at least one path argument, the exit code is 0
  exactly when every path that is not skipped exists and validates with no diagnostic,
  so a missing path that is not skipped makes it 1; and when no validation raises an
  exception, a missing path does not stop the batch: what is printed is the report of
  each path argument in turn, each the same as if the path were processed alone.
\<close>

theorem batch_outcome:
  assumes "2 \<le> length argv"
  shows "(exit_code (main fs argv) = 0 \<longleftrightarrow> list_all (passes fs) (tl argv))
       \<and> (\<forall>p \<in> set (tl argv). path_name p \<notin> SKIP_FILES \<and> fs p = None \<longrightarrow>
            exit_code (main fs argv) = 1)
       \<and> (list_all (\<lambda>p. \<not> raises fs p) (tl argv) \<longrightarrow>
            fst (main fs argv) = concat (map (report fs) (tl argv)))"
proof -
  have code: "exit_code (main fs argv) = 0 \<longleftrightarrow> list_all (passes fs) (tl argv)"
    using exit_code_zero [OF assms] main_loop_all_valid [of fs "tl argv" True "[]"] by simp
  have missing: "exit_code (main fs argv) = 1"
    if "p \<in> set (tl argv)" and "path_name p \<notin> SKIP_FILES \<and> fs p = None" for p
  proof -
    from that have "\<not> passes fs p"
      by (simp add: passes_def)
    with that(1) have "\<not> list_all (passes fs) (tl argv)"
      by (auto simp: list_all_iff)
    with code show ?thesis
      using exit_code_one_or_zero by blast
  qed
  have printed: "fst (main fs argv) = concat (map (report fs) (tl argv))"
    if "list_all (\<lambda>p. \<not> raises fs p) (tl argv)"
    using assms main_loop_without_raise [OF that, of True "[]"] by (simp add: main_def)
  from code missing printed show ?thesis
    by blast
qed

theorem batch_outcome_witness:
  "main disk [''validate-broker-toml.py'', ''brokers/spokeo.toml'', ''brokers/missing.toml'',
       ''brokers/law.toml''] =
     ([''OK: brokers/spokeo.toml'', ''ERROR: File not found: brokers/missing.toml'',
       ''ERROR: brokers/law.toml'', ''  - '' @ invalid_jurisdiction_message ''xx''], Inr 1)
   \<and> fst (main disk [''validate-broker-toml.py'', ''brokers/spokeo.toml'',
       ''brokers/missing.toml'', ''brokers/law.toml'']) =
     concat (map (report disk)
       [''brokers/spokeo.toml'', ''brokers/missing.toml'', ''brokers/law.toml''])
   \<and> exit_code (main disk [''validate-broker-toml.py'', ''brokers/spokeo.toml'',
       ''brokers/missing.toml'', ''brokers/law.toml'']) = 1
   \<and> exit_code (main disk [''validate-broker-toml.py'', ''brokers/spokeo.toml'']) = 0"
proof -
  let ?argv = "[''validate-broker-toml.py'', ''brokers/spokeo.toml'', ''brokers/missing.toml'',
       ''brokers/law.toml'']"
  let ?one = "[''validate-broker-toml.py'', ''brokers/spokeo.toml'']"
  have run: "main disk ?argv =
     ([''OK: brokers/spokeo.toml'', ''ERROR: File not found: brokers/missing.toml'',
       ''ERROR: brokers/law.toml'', ''  - '' @ invalid_jurisdiction_message ''xx''], Inr 1)"
    by code_simp
  have quiet: "list_all (\<lambda>p. \<not> raises disk p) (tl ?argv)"
    by code_simp
  have gone: "''brokers/missing.toml'' \<in> set (tl ?argv)"
    "path_name ''brokers/missing.toml'' \<notin> SKIP_FILES \<and> disk ''brokers/missing.toml'' = None"
    by code_simp+
  have good: "list_all (passes disk) (tl ?one)"
    by code_simp
  have several: "2 \<le> length ?argv" and single: "2 \<le> length ?one"
    by simp_all
  note all = batch_outcome [OF several, of disk]
  from all quiet have "fst (main disk ?argv) = concat (map (report disk) (tl ?argv))"
    by blast
  then have listed: "fst (main disk ?argv) =
      concat (map (report disk)
        [''brokers/spokeo.toml'', ''brokers/missing.toml'', ''brokers/law.toml''])"
    by simp
  from all gone have one: "exit_code (main disk ?argv) = 1"
    by blast
  from batch_outcome [OF single, of disk] good
  have zero: "exit_code (main disk ?one) = 0"
    by blast
  from run listed one zero show ?thesis
    by (intro conjI)
qed

section \<open>Skipped files\<close>

lemma main_loop_outcome_without_output:
  "snd (main_loop fs args all_valid printed) = snd (main_loop fs args all_valid [])"
  using main_loop_printed [of fs args all_valid printed] by simp

lemma main_loop_skip_removed:
  assumes "path_name filepath \<in> SKIP_FILES"
  shows "snd (main_loop fs (before @ filepath # after) all_valid printed) =
         snd (main_loop fs (before @ after) all_valid printed)"
proof (induction before arbitrary: all_valid printed)
  case Nil
  show ?case
    using assms main_loop_outcome_without_output [of fs after all_valid "printed @ _"]
      main_loop_outcome_without_output [of fs after all_valid printed]
    by simp
next
  case (Cons p before)
  show ?case
  proof (cases "validate_broker_toml fs p")
    case (Inl e)
    then show ?thesis
      using Cons.IH by simp
  next
    case (Inr errors)
    then show ?thesis
      using Cons.IH by simp
  qed
qed

lemma main_loop_keeps_output:
  "set printed \<subseteq> set (fst (main_loop fs args all_valid printed))"
  using main_loop_printed [of fs args all_valid printed] by simp

lemma main_loop_reports_skip:
  assumes "path_name filepath \<in> SKIP_FILES" and "filepath \<in> set args"
    and "snd (main_loop fs args all_valid printed) = Inr verdict"
  shows "''SKIP: '' @ filepath @ '' (documentation)''
           \<in> set (fst (main_loop fs args all_valid printed))"
  using assms(2,3)
proof (induction args arbitrary: all_valid printed)
  case Nil
  then show ?case by simp
next
  case (Cons p rest)
  show ?case
  proof (cases "p = filepath")
    case True
    have "''SKIP: '' @ filepath @ '' (documentation)''
        \<in> set (printed @ [''SKIP: '' @ filepath @ '' (documentation)''])"
      by simp
    then have "''SKIP: '' @ filepath @ '' (documentation)''
        \<in> set (fst (main_loop fs rest all_valid
              (printed @ [''SKIP: '' @ filepath @ '' (documentation)''])))"
      using main_loop_keeps_output by blast
    with True assms(1) show ?thesis
      by simp
  next
    case False
    with Cons.prems have later: "filepath \<in> set rest"
      by simp
    show ?thesis
    proof (cases "validate_broker_toml fs p")
      case (Inl e)
      with Cons.prems(2) Cons.IH [OF later] show ?thesis
        by (simp split: if_splits)
    next
      case (Inr errors)
      with Cons.prems(2) Cons.IH [OF later] show ?thesis
        by (simp split: if_splits)
    qed
  qed
qed

text \<open>
  Claim C9. A path argument whose base name is \<^verbatim>\<open>schema.toml\<close> or \<^verbatim>\<open>README.md\<close> is
  reported as skipped whatever the path holds: the run is the same for every content
  of the path, present or not, so the file is neither loaded nor validated; the step
  of the loop prints the one line and leaves \<^verbatim>\<open>all_valid\<close> as it is; the outcome of
  the batch is the same as without the argument; and a run that returns has printed
  the line.
\<close>

theorem skipped_file:
  assumes "path_name filepath = ''schema.toml'' \<or> path_name filepath = ''README.md''"
  shows "main (fs(filepath := content)) argv = main fs argv
       \<and> main_loop fs (filepath # rest) all_valid printed =
           main_loop fs rest all_valid (printed @ [''SKIP: '' @ filepath @ '' (documentation)''])
       \<and> snd (main_loop fs (before @ filepath # after) all_valid printed) =
           snd (main_loop fs (before @ after) all_valid printed)
       \<and> (filepath \<in> set (tl argv) \<and> snd (main fs argv) = Inr status \<longrightarrow>
            ''SKIP: '' @ filepath @ '' (documentation)'' \<in> set (fst (main fs argv)))"
proof -
  from assms have skip: "path_name filepath \<in> SKIP_FILES"
    by (auto simp: SKIP_FILES_def)
  have "main_loop (fs(filepath := content)) (tl argv) True [] = main_loop fs (tl argv) True []"
    using skip by (intro main_loop_reads_unskipped_files) auto
  then have same: "main (fs(filepath := content)) argv = main fs argv"
    by (simp add: main_def)
  have step: "main_loop fs (filepath # rest) all_valid printed =
      main_loop fs rest all_valid (printed @ [''SKIP: '' @ filepath @ '' (documentation)''])"
    using skip by simp
  have reported: "''SKIP: '' @ filepath @ '' (documentation)'' \<in> set (fst (main fs argv))"
    if "filepath \<in> set (tl argv)" and "snd (main fs argv) = Inr status"
  proof (cases "main_loop fs (tl argv) True []")
    case (Pair out outcome)
    from that(1) have several: "\<not> length argv < 2"
      by (cases argv) auto
    with that(2) Pair obtain verdict where "outcome = Inr verdict"
      by (cases outcome) (auto simp: main_def)
    with Pair main_loop_reports_skip [OF skip that(1), of fs True "[]" verdict] several
    show ?thesis
      by (simp add: main_def)
  qed
  from same step main_loop_skip_removed [OF skip] reported show ?thesis
    by blast
qed

theorem skipped_file_witness:
  "path_name ''brokers/schema.toml'' = ''schema.toml''
   \<and> main (disk(''brokers/schema.toml'' := None))
       [''validate-broker-toml.py'', ''brokers/spokeo.toml'', ''brokers/schema.toml''] =
     main disk [''validate-broker-toml.py'', ''brokers/spokeo.toml'', ''brokers/schema.toml'']
   \<and> main disk [''validate-broker-toml.py'', ''brokers/spokeo.toml'', ''brokers/schema.toml''] =
     ([''OK: brokers/spokeo.toml'', ''SKIP: brokers/schema.toml (documentation)''], Inr 0)
   \<and> validate_broker_toml disk ''brokers/schema.toml'' =
     Inr [''Invalid TOML syntax: Invalid statement (at line 1, column 1)'']"
proof -
  let ?argv = "[''validate-broker-toml.py'', ''brokers/spokeo.toml'', ''brokers/schema.toml'']"
  have named: "path_name ''brokers/schema.toml'' = ''schema.toml''"
    by code_simp
  then have skip: "path_name ''brokers/schema.toml'' = ''schema.toml''
      \<or> path_name ''brokers/schema.toml'' = ''README.md''"
    by (rule disjI1)
  have run: "main disk ?argv =
     ([''OK: brokers/spokeo.toml'', ''SKIP: brokers/schema.toml (documentation)''], Inr 0)"
    by code_simp
  have broken: "validate_broker_toml disk ''brokers/schema.toml'' =
     Inr [''Invalid TOML syntax: Invalid statement (at line 1, column 1)'']"
    by code_simp
  from skipped_file [OF skip, of disk None ?argv]
  have "main (disk(''brokers/schema.toml'' := None)) ?argv = main disk ?argv"
    by (rule conjunct1)
  with named run broken show ?thesis
    by (intro conjI)
qed

end
